theory Spec2Isabelle
  imports Complex_Main "HOL-Library.Log_Nat"
begin

section \<open>JavaScript numbers\<close>

text \<open>
  The handlers of \<^verbatim>\<open>src/routes/vendorAnalytics.ts\<close> compute with JavaScript numbers.
  A number is modelled as a rational or one of the three special values, so that a
  division by zero and a propagated \<^verbatim>\<open>NaN\<close> are values of the model. The zero is
  \<^verbatim>\<open>+0\<close> (\<^verbatim>\<open>-0\<close> is not represented).

  The operations come in two layers. The operations \<open>js_add\<close>, \<open>js_sub\<close>, \<open>js_mul\<close>
  and \<open>js_div\<close> below are exact on finite values. The operations of the program round
  each exact result to the nearest double; they are \<open>f_add\<close>, \<open>f_sub\<close>, \<open>f_mul\<close> and
  \<open>f_div\<close> of the next section. The payment, trend and category handlers are written
  with the rounded operations. The constants of the performance scorecard and of the risk
  assessment are written with the exact ones: what is stated about them further down are
  values at rows where both layers agree, and bounds that hold with a margin.
\<close>

datatype jsnum = Num rat | PosInf | NegInf | NaN

type_synonym date = int

fun js_add :: "jsnum \<Rightarrow> jsnum \<Rightarrow> jsnum" where
  "js_add (Num a) (Num b) = Num (a + b)"
| "js_add NaN _ = NaN"
| "js_add _ NaN = NaN"
| "js_add PosInf NegInf = NaN"
| "js_add NegInf PosInf = NaN"
| "js_add PosInf _ = PosInf"
| "js_add _ PosInf = PosInf"
| "js_add NegInf _ = NegInf"
| "js_add _ NegInf = NegInf"

fun js_sub :: "jsnum \<Rightarrow> jsnum \<Rightarrow> jsnum" where
  "js_sub (Num a) (Num b) = Num (a - b)"
| "js_sub NaN _ = NaN"
| "js_sub _ NaN = NaN"
| "js_sub PosInf PosInf = NaN"
| "js_sub NegInf NegInf = NaN"
| "js_sub PosInf _ = PosInf"
| "js_sub _ PosInf = NegInf"
| "js_sub NegInf _ = NegInf"
| "js_sub _ NegInf = PosInf"

fun js_mul :: "jsnum \<Rightarrow> jsnum \<Rightarrow> jsnum" where
  "js_mul (Num a) (Num b) = Num (a * b)"
| "js_mul NaN _ = NaN"
| "js_mul _ NaN = NaN"
| "js_mul PosInf (Num b) = (if b = 0 then NaN else if 0 < b then PosInf else NegInf)"
| "js_mul NegInf (Num b) = (if b = 0 then NaN else if 0 < b then NegInf else PosInf)"
| "js_mul (Num a) PosInf = (if a = 0 then NaN else if 0 < a then PosInf else NegInf)"
| "js_mul (Num a) NegInf = (if a = 0 then NaN else if 0 < a then NegInf else PosInf)"
| "js_mul PosInf PosInf = PosInf"
| "js_mul PosInf NegInf = NegInf"
| "js_mul NegInf PosInf = NegInf"
| "js_mul NegInf NegInf = PosInf"

text \<open>Division by (positive) zero gives an infinity of the sign of the dividend, and
  \<^verbatim>\<open>0 / 0\<close> is \<^verbatim>\<open>NaN\<close>; nothing is raised.\<close>

fun js_div :: "jsnum \<Rightarrow> jsnum \<Rightarrow> jsnum" where
  "js_div (Num a) (Num b) =
     (if b = 0 then (if a = 0 then NaN else if 0 < a then PosInf else NegInf)
      else Num (a / b))"
| "js_div NaN _ = NaN"
| "js_div _ NaN = NaN"
| "js_div (Num a) PosInf = Num 0"
| "js_div (Num a) NegInf = Num 0"
| "js_div PosInf (Num b) = (if 0 \<le> b then PosInf else NegInf)"
| "js_div NegInf (Num b) = (if 0 \<le> b then NegInf else PosInf)"
| "js_div PosInf PosInf = NaN"
| "js_div PosInf NegInf = NaN"
| "js_div NegInf PosInf = NaN"
| "js_div NegInf NegInf = NaN"

text \<open>The comparison \<^verbatim>\<open>a > b\<close>: false as soon as one side is \<^verbatim>\<open>NaN\<close>.\<close>

fun js_gt :: "jsnum \<Rightarrow> jsnum \<Rightarrow> bool" where
  "js_gt (Num a) (Num b) = (b < a)"
| "js_gt NaN _ = False"
| "js_gt _ NaN = False"
| "js_gt PosInf PosInf = False"
| "js_gt PosInf _ = True"
| "js_gt _ PosInf = False"
| "js_gt NegInf _ = False"
| "js_gt _ NegInf = True"

fun Math_min :: "jsnum \<Rightarrow> jsnum \<Rightarrow> jsnum" where
  "Math_min (Num a) (Num b) = Num (min a b)"
| "Math_min NaN _ = NaN"
| "Math_min _ NaN = NaN"
| "Math_min NegInf _ = NegInf"
| "Math_min _ NegInf = NegInf"
| "Math_min PosInf b = b"
| "Math_min a PosInf = a"

fun Math_max :: "jsnum \<Rightarrow> jsnum \<Rightarrow> jsnum" where
  "Math_max (Num a) (Num b) = Num (max a b)"
| "Math_max NaN _ = NaN"
| "Math_max _ NaN = NaN"
| "Math_max PosInf _ = PosInf"
| "Math_max _ PosInf = PosInf"
| "Math_max NegInf b = b"
| "Math_max a NegInf = a"

text \<open>\<^verbatim>\<open>Math.round\<close> rounds to the nearest integer, a half towards \<^verbatim>\<open>+Infinity\<close>:
  \<^verbatim>\<open>Math.round(2.5) = 3\<close> and \<^verbatim>\<open>Math.round(-2.5) = -2\<close>.\<close>

fun Math_round :: "jsnum \<Rightarrow> jsnum" where
  "Math_round (Num a) = Num (of_int \<lfloor>a + 1 / 2\<rfloor>)"
| "Math_round PosInf = PosInf"
| "Math_round NegInf = NegInf"
| "Math_round NaN = NaN"

section \<open>Doubles\<close>

text \<open>
  Rounding to the nearest double (IEEE 754 binary64, ties to even). For \<open>a > 0\<close>,
  \<open>exponent a\<close> is the integer \<open>e\<close> with \<open>2 powi e \<le> a < 2 powi (e + 1)\<close>. A double
  has 53 significant bits, so the doubles next to \<open>a\<close> are multiples of
  \<open>2 powi (e - 52)\<close>; below \<open>2 powi (- 1022)\<close> they are the multiples of
  \<open>2 powi (- 1074)\<close>, the subnormal numbers.
\<close>

definition exponent :: "rat \<Rightarrow> int" where
  "exponent a = (if 1 \<le> a then bitlen \<lfloor>a\<rfloor> - 1 else - bitlen (\<lceil>1 / a\<rceil> - 1))"

definition ties_even :: "rat \<Rightarrow> int" where
  "ties_even y =
     (let n = \<lfloor>y\<rfloor>; r = y - of_int n
      in if r < 1 / 2 then n else if 1 / 2 < r then n + 1 else if even n then n else n + 1)"

definition fl :: "rat \<Rightarrow> rat" where
  "fl x =
     (if x = 0 then 0
      else let a = \<bar>x\<bar>; u = 2 powi (max (exponent a) (- 1022) - 52)
           in sgn x * of_int (ties_even (a / u)) * u)"

text \<open>A result that rounds to \<open>2 ^ 1024\<close> or beyond overflows to an infinity.\<close>

definition huge :: rat where
  "huge = 2 ^ 1024"

fun rnd :: "jsnum \<Rightarrow> jsnum" where
  "rnd (Num x) =
     (if huge \<le> fl x then PosInf else if fl x \<le> - huge then NegInf else Num (fl x))"
| "rnd PosInf = PosInf"
| "rnd NegInf = NegInf"
| "rnd NaN = NaN"

text \<open>The arithmetic of the program: the exact result, correctly rounded.\<close>

definition f_add :: "jsnum \<Rightarrow> jsnum \<Rightarrow> jsnum" where
  "f_add a b = rnd (js_add a b)"

definition f_sub :: "jsnum \<Rightarrow> jsnum \<Rightarrow> jsnum" where
  "f_sub a b = rnd (js_sub a b)"

definition f_mul :: "jsnum \<Rightarrow> jsnum \<Rightarrow> jsnum" where
  "f_mul a b = rnd (js_mul a b)"

definition f_div :: "jsnum \<Rightarrow> jsnum \<Rightarrow> jsnum" where
  "f_div a b = rnd (js_div a b)"

text \<open>\<^verbatim>\<open>parseFloat\<close> of a decimal column: the double nearest to the decimal.\<close>

definition parseFloat :: "rat \<Rightarrow> jsnum" where
  "parseFloat x = rnd (Num x)"

section \<open>Aggregate rows and answers\<close>

text \<open>
  The rows returned by the aggregate queries and the objects the handlers answer with.
  The columns cast with \<^verbatim>\<open>::int\<close> are counts (\<^verbatim>\<open>COUNT(...)\<close>), hence natural
  numbers; the \<^verbatim>\<open>::decimal\<close> columns are signed decimals, and \<^verbatim>\<open>parseFloat\<close> of
  such a column is a finite number.
\<close>

subsection \<open>Performance scorecard\<close>

record vendor_performance =
  vendorName :: string
  vendorTaxId :: "string option"
  invoice_count :: nat
  total_spend :: rat
  avg_invoice_value :: rat
  first_invoice :: date
  last_invoice :: date
  active_months :: nat
  avg_payment_terms :: rat

record performance_score =
  overall :: jsnum
  consistency :: jsnum
  volume :: jsnum
  reliability :: jsnum

record scorecard_entry =
  vendorName :: string
  vendorTaxId :: "string option"
  totalSpend :: jsnum
  invoiceCount :: nat
  avgInvoiceValue :: jsnum
  firstInvoice :: date
  lastInvoice :: date
  activeMonths :: nat
  avgPaymentTerms :: jsnum
  performanceScore :: performance_score

subsection \<open>Payment reliability\<close>

record payment_reliability =
  vendorName :: string
  payment_records :: nat
  avg_payment_terms :: rat
  avg_discount_rate :: rat
  overdue_count :: nat
  discount_eligible :: nat
  potential_savings :: rat
  earliest_due :: date
  latest_due :: date

record payment_window =
  earliest :: date
  latest :: date

record reliability_entry =
  vendorName :: string
  paymentRecords :: nat
  avgPaymentTerms :: jsnum
  avgDiscountRate :: jsnum
  overdueCount :: nat
  overdueRate :: jsnum
  discountEligible :: nat
  discountUtilization :: jsnum
  potentialSavings :: jsnum
  reliabilityScore :: jsnum
  paymentWindow :: payment_window

subsection \<open>Spending trends\<close>

text \<open>One monthly point of a vendor, as pushed by the grouping of lines 214 to 226;
  \<open>month\<close> is the time value of the truncated date, and the two amounts are the numbers
  that \<^verbatim>\<open>parseFloat\<close> returned.\<close>

record trend_point =
  month :: date
  invoiceCount :: nat
  monthlySpend :: jsnum
  avgInvoiceValue :: jsnum

record trend_summary =
  totalSpend :: jsnum
  avgMonthlySpend :: jsnum
  growthRate :: jsnum
  activeMonths :: nat
  totalInvoices :: nat

record trend_entry =
  vendorName :: string
  trends :: "trend_point list"
  summary :: trend_summary

subsection \<open>Risk assessment\<close>

record vendor_risk =
  vendorName :: string
  vendorTaxId :: "string option"
  total_invoices :: nat
  total_exposure :: rat
  avg_invoice_value :: rat
  invoice_variability :: rat
  late_invoices :: nat
  overdue_payments :: nat
  avg_payment_window :: rat
  relationship_start :: date
  last_activity :: date
  active_months :: nat

record relationship_duration =
  start :: date
  lastActivity :: date
  activeMonths :: nat

record risk_scores =
  overall :: jsnum
  exposure :: jsnum
  variability :: jsnum
  timeliness :: jsnum
  payment :: jsnum

record risk_entry =
  vendorName :: string
  vendorTaxId :: "string option"
  totalInvoices :: nat
  totalExposure :: jsnum
  avgInvoiceValue :: jsnum
  invoiceVariability :: jsnum
  lateInvoices :: nat
  lateInvoiceRate :: jsnum
  overduePayments :: nat
  overdueRate :: jsnum
  avgPaymentWindow :: jsnum
  relationshipDuration :: relationship_duration
  riskScores :: risk_scores
  riskCategory :: string

record risk_distribution =
  high :: nat
  medium :: nat
  low :: nat

record risk_metadata =
  totalVendors :: nat
  riskDistribution :: risk_distribution

subsection \<open>Category analysis\<close>

text \<open>A row of the query of lines 394 to 411.\<close>

record category_record =
  vendorName :: string
  category :: string
  item_count :: nat
  category_spend :: rat
  avg_unit_price :: rat
  avg_quantity :: rat

text \<open>A category of a vendor as accumulated by the grouping of lines 414 to 438, and the
  same with the \<open>percentage\<close> that the final mapping adds. The amounts are finite
  doubles: the sums of \<^verbatim>\<open>DECIMAL(18,4)\<close> columns stay far below \<open>2 ^ 1024\<close>.\<close>

record category_item =
  category :: string
  itemCount :: nat
  categorySpend :: rat
  avgUnitPrice :: rat
  avgQuantity :: rat

record category_share = category_item +
  percentage :: jsnum

record vendor_categories =
  vendorName :: string
  categories :: "category_item list"
  totalSpend :: rat
  totalItems :: nat

record vendor_category_entry =
  vendorName :: string
  categories :: "category_share list"
  totalSpend :: rat
  totalItems :: nat

subsection \<open>Answers\<close>

text \<open>
  The answer of a handler: \<^verbatim>\<open>res.json({success: true, data, metadata})\<close>, or status
  500 with the message of the error thrown by the query. The timestamp of the answer and
  the echoed request parameters are not part of the model.
\<close>

datatype ('d, 'm) response = Success 'd 'm | ServerError string


text \<open>\<^verbatim>\<open>error.message || fallback\<close>\<close>

definition error_message :: "string \<Rightarrow> string \<Rightarrow> string" where
  "error_message message fallback = (if message = [] then fallback else message)"



section \<open>Performance scorecard\<close>

text \<open>
  The constants of the mapping function, lines 51 to 55. The argument \<open>timeframe\<close>
  stands for the value of \<^verbatim>\<open>parseInt(timeframe)\<close>: an integer, or \<^verbatim>\<open>NaN\<close> when the
  query parameter does not start with digits.
\<close>

definition consistencyScore :: "vendor_performance \<Rightarrow> jsnum \<Rightarrow> jsnum" where
  "consistencyScore vendor timeframe =
     Math_min (Num 100)
       (js_mul
          (js_div (Num (of_nat (vendor_performance.active_months vendor))) timeframe)
          (Num 100))"

definition volumeScore :: "vendor_performance \<Rightarrow> jsnum" where
  "volumeScore vendor =
     Math_min (Num 100)
       (js_mul (js_div (Num (of_nat (invoice_count vendor))) (Num 50)) (Num 100))"

definition reliabilityScore :: "vendor_performance \<Rightarrow> jsnum" where
  "reliabilityScore vendor =
     (if js_gt (Num (vendor_performance.avg_payment_terms vendor)) (Num 0)
      then Math_max (Num 0)
             (js_sub (Num 100)
                (js_sub (Num (vendor_performance.avg_payment_terms vendor)) (Num 30)))
      else Num 50)"

definition overallScore :: "vendor_performance \<Rightarrow> jsnum \<Rightarrow> jsnum" where
  "overallScore vendor timeframe =
     Math_round
       (js_div
          (js_add (js_add (consistencyScore vendor timeframe) (volumeScore vendor))
             (reliabilityScore vendor))
          (Num 3))"

text \<open>The function mapped over the rows, lines 50 to 74, and the mapped array.\<close>

definition scorecard_of :: "jsnum \<Rightarrow> vendor_performance \<Rightarrow> scorecard_entry" where
  "scorecard_of timeframe vendor =
     \<lparr> scorecard_entry.vendorName = vendor_performance.vendorName vendor,
       scorecard_entry.vendorTaxId = vendor_performance.vendorTaxId vendor,
       scorecard_entry.totalSpend = Num (total_spend vendor),
       scorecard_entry.invoiceCount = invoice_count vendor,
       scorecard_entry.avgInvoiceValue = Num (vendor_performance.avg_invoice_value vendor),
       firstInvoice = first_invoice vendor,
       lastInvoice = last_invoice vendor,
       scorecard_entry.activeMonths = vendor_performance.active_months vendor,
       scorecard_entry.avgPaymentTerms = Num (vendor_performance.avg_payment_terms vendor),
       performanceScore =
         \<lparr> performance_score.overall = overallScore vendor timeframe,
           consistency = Math_round (consistencyScore vendor timeframe),
           volume = Math_round (volumeScore vendor),
           reliability = Math_round (reliabilityScore vendor) \<rparr> \<rparr>"



section \<open>Payment reliability\<close>

text \<open>The constants \<^verbatim>\<open>overdueRate\<close>, \<^verbatim>\<open>discountUtilization\<close> and
  \<^verbatim>\<open>reliabilityScore\<close> of lines 128 to 132.\<close>

definition payment_overdueRate :: "payment_reliability \<Rightarrow> jsnum" where
  "payment_overdueRate vendor =
     (if js_gt (Num (of_nat (payment_records vendor))) (Num 0)
      then f_mul
             (f_div (Num (of_nat (overdue_count vendor)))
                (Num (of_nat (payment_records vendor))))
             (Num 100)
      else Num 0)"

definition payment_discountUtilization :: "payment_reliability \<Rightarrow> jsnum" where
  "payment_discountUtilization vendor =
     (if js_gt (Num (of_nat (payment_records vendor))) (Num 0)
      then f_mul
             (f_div (Num (of_nat (discount_eligible vendor)))
                (Num (of_nat (payment_records vendor))))
             (Num 100)
      else Num 0)"

definition payment_reliabilityScore :: "payment_reliability \<Rightarrow> jsnum" where
  "payment_reliabilityScore vendor =
     Math_max (Num 0) (f_sub (Num 100) (f_mul (payment_overdueRate vendor) (Num 2)))"

text \<open>The function mapped over the rows, lines 127 to 150, and the mapped array.\<close>

definition reliability_of :: "payment_reliability \<Rightarrow> reliability_entry" where
  "reliability_of vendor =
     \<lparr> reliability_entry.vendorName = payment_reliability.vendorName vendor,
       paymentRecords = payment_records vendor,
       reliability_entry.avgPaymentTerms =
         parseFloat (payment_reliability.avg_payment_terms vendor),
       avgDiscountRate = parseFloat (avg_discount_rate vendor),
       overdueCount = overdue_count vendor,
       reliability_entry.overdueRate =
         f_div (Math_round (f_mul (payment_overdueRate vendor) (Num 100))) (Num 100),
       discountEligible = discount_eligible vendor,
       discountUtilization =
         f_div (Math_round (f_mul (payment_discountUtilization vendor) (Num 100))) (Num 100),
       potentialSavings = parseFloat (potential_savings vendor),
       reliability_entry.reliabilityScore = Math_round (payment_reliabilityScore vendor),
       paymentWindow = \<lparr> earliest = earliest_due vendor, latest = latest_due vendor \<rparr> \<rparr>"

definition reliabilityData :: "payment_reliability list \<Rightarrow> reliability_entry list" where
  "reliabilityData paymentReliability = map reliability_of paymentReliability"

text \<open>
  The number that \<^verbatim>\<open>(part / whole) * 100\<close> denotes for two counts, with the rounding
  of the division and of the multiplication written out, and 0 when \<open>whole\<close> is 0.
\<close>

definition rounded_rate :: "nat \<Rightarrow> nat \<Rightarrow> rat" where
  "rounded_rate part whole =
     (if 0 < whole then fl (fl (rat_of_nat part / rat_of_nat whole) * 100) else 0)"

section \<open>Array slices\<close>

text \<open>
  \<^verbatim>\<open>Array.prototype.slice(start, end)\<close>: an index is first made an integer
  (\<^verbatim>\<open>NaN\<close> becomes 0, a fraction is truncated), a negative index counts from the end
  of the array, and both indices are clamped to the array. A missing \<open>end\<close> is the
  length of the array.
\<close>

definition js_truncate :: "rat \<Rightarrow> int" where
  "js_truncate a = (if 0 \<le> a then \<lfloor>a\<rfloor> else \<lceil>a\<rceil>)"

fun relative_index :: "nat \<Rightarrow> jsnum \<Rightarrow> nat" where
  "relative_index len (Num a) =
     (let i = js_truncate a in if i < 0 then nat (max (int len + i) 0) else min (nat i) len)"
| "relative_index len NaN = 0"
| "relative_index len NegInf = 0"
| "relative_index len PosInf = len"

definition slice :: "'a list \<Rightarrow> jsnum \<Rightarrow> jsnum option \<Rightarrow> 'a list" where
  "slice xs first final =
     (let len = length xs;
          k = relative_index len first;
          e = (case final of None \<Rightarrow> len | Some f \<Rightarrow> relative_index len f)
      in take (e - k) (drop k xs))"

section \<open>Spending trends\<close>

text \<open>\<^verbatim>\<open>ts.reduce((sum, t) => sum + t.monthlySpend, 0)\<close>\<close>

definition spend_sum :: "trend_point list \<Rightarrow> jsnum" where
  "spend_sum ts = foldl (\<lambda>sum t. f_add sum (monthlySpend t)) (Num 0) ts"

text \<open>\<^verbatim>\<open>trends.sort(...)\<close> by the time of the month, ascending; the sort is stable,
  and it sorts \<^verbatim>\<open>trends\<close> itself, so that every later use of \<^verbatim>\<open>trends\<close> sees the
  sorted array.\<close>

definition sortedTrends :: "trend_point list \<Rightarrow> trend_point list" where
  "sortedTrends ts = sort_key month ts"

text \<open>Lines 235 to 239, as functions of the sorted array.\<close>

definition recent :: "trend_point list \<Rightarrow> trend_point list" where
  "recent ts = slice ts (Num (- 3)) None"

definition previous :: "trend_point list \<Rightarrow> trend_point list" where
  "previous ts = slice ts (Num (- 6)) (Some (Num (- 3)))"

definition recentAvg :: "trend_point list \<Rightarrow> jsnum" where
  "recentAvg ts = f_div (spend_sum (recent ts)) (Num (of_nat (length (recent ts))))"

definition previousAvg :: "trend_point list \<Rightarrow> jsnum" where
  "previousAvg ts =
     (if length (previous ts) > 0
      then f_div (spend_sum (previous ts)) (Num (of_nat (length (previous ts))))
      else recentAvg ts)"

definition trend_growthRate :: "trend_point list \<Rightarrow> jsnum" where
  "trend_growthRate ts =
     (if js_gt (previousAvg ts) (Num 0)
      then f_mul (f_div (f_sub (recentAvg ts) (previousAvg ts)) (previousAvg ts)) (Num 100)
      else Num 0)"

text \<open>The function mapped over the entries of \<^verbatim>\<open>trendsByVendor\<close>, lines 229 to 252.\<close>

definition trend_of :: "string \<Rightarrow> trend_point list \<Rightarrow> trend_entry" where
  "trend_of name points =
     (let ts = sortedTrends points;
          spend = spend_sum ts;
          avgMonthly = f_div spend (Num (of_nat (length ts)))
      in \<lparr> trend_entry.vendorName = name,
           trends = ts,
           summary =
             \<lparr> trend_summary.totalSpend = spend,
               avgMonthlySpend = f_div (Math_round (f_mul avgMonthly (Num 100))) (Num 100),
               growthRate =
                 f_div (Math_round (f_mul (trend_growthRate ts) (Num 100))) (Num 100),
               trend_summary.activeMonths = length ts,
               totalInvoices =
                 foldl (\<lambda>sum t. sum + trend_point.invoiceCount t) 0 ts \<rparr> \<rparr>)"

section \<open>Risk assessment\<close>

text \<open>The constants of lines 313 to 330.\<close>

definition risk_lateInvoiceRate :: "vendor_risk \<Rightarrow> jsnum" where
  "risk_lateInvoiceRate vendor =
     (if js_gt (Num (of_nat (total_invoices vendor))) (Num 0)
      then js_mul
             (js_div (Num (of_nat (late_invoices vendor))) (Num (of_nat (total_invoices vendor))))
             (Num 100)
      else Num 0)"

definition risk_overdueRate :: "vendor_risk \<Rightarrow> jsnum" where
  "risk_overdueRate vendor =
     (if js_gt (Num (of_nat (total_invoices vendor))) (Num 0)
      then js_mul
             (js_div (Num (of_nat (overdue_payments vendor)))
                (Num (of_nat (total_invoices vendor))))
             (Num 100)
      else Num 0)"

definition exposureRisk :: "vendor_risk \<Rightarrow> jsnum" where
  "exposureRisk vendor =
     Math_min (Num 100)
       (js_mul (js_div (Num (total_exposure vendor)) (Num 1000000)) (Num 100))"

definition variabilityRisk :: "vendor_risk \<Rightarrow> jsnum" where
  "variabilityRisk vendor =
     (if js_gt (Num (vendor_risk.avg_invoice_value vendor)) (Num 0)
      then Math_min (Num 100)
             (js_mul
                (js_div (Num (invoice_variability vendor))
                   (Num (vendor_risk.avg_invoice_value vendor)))
                (Num 100))
      else Num 0)"

definition timelinessRisk :: "vendor_risk \<Rightarrow> jsnum" where
  "timelinessRisk vendor = Math_min (Num 100) (js_mul (risk_lateInvoiceRate vendor) (Num 2))"

definition paymentRisk :: "vendor_risk \<Rightarrow> jsnum" where
  "paymentRisk vendor = Math_min (Num 100) (js_mul (risk_overdueRate vendor) (Num 3))"

definition overallRisk :: "vendor_risk \<Rightarrow> jsnum" where
  "overallRisk vendor =
     Math_round
       (js_add
          (js_add
             (js_add (js_mul (exposureRisk vendor) (Num (3 / 10)))
                (js_mul (variabilityRisk vendor) (Num (2 / 10))))
             (js_mul (timelinessRisk vendor) (Num (25 / 100))))
          (js_mul (paymentRisk vendor) (Num (25 / 100))))"

text \<open>The category of an overall risk, lines 328 to 330.\<close>

definition riskCategory :: "jsnum \<Rightarrow> string" where
  "riskCategory risk =
     (if js_gt risk (Num 70) then ''High''
      else if js_gt risk (Num 40) then ''Medium''
      else ''Low'')"

text \<open>The function mapped over the rows, lines 308 to 358, the mapped array, and the
  handler with the metadata of lines 363 to 369.\<close>

definition risk_of :: "vendor_risk \<Rightarrow> risk_entry" where
  "risk_of vendor =
     \<lparr> risk_entry.vendorName = vendor_risk.vendorName vendor,
       risk_entry.vendorTaxId = vendor_risk.vendorTaxId vendor,
       totalInvoices = total_invoices vendor,
       totalExposure = Num (total_exposure vendor),
       risk_entry.avgInvoiceValue = Num (vendor_risk.avg_invoice_value vendor),
       invoiceVariability = Num (invoice_variability vendor),
       lateInvoices = late_invoices vendor,
       lateInvoiceRate =
         js_div (Math_round (js_mul (risk_lateInvoiceRate vendor) (Num 100))) (Num 100),
       overduePayments = overdue_payments vendor,
       risk_entry.overdueRate =
         js_div (Math_round (js_mul (risk_overdueRate vendor) (Num 100))) (Num 100),
       avgPaymentWindow = Num (avg_payment_window vendor),
       relationshipDuration =
         \<lparr> start = relationship_start vendor,
           lastActivity = last_activity vendor,
           relationship_duration.activeMonths = vendor_risk.active_months vendor \<rparr>,
       riskScores =
         \<lparr> risk_scores.overall = overallRisk vendor,
           exposure = Math_round (exposureRisk vendor),
           variability = Math_round (variabilityRisk vendor),
           timeliness = Math_round (timelinessRisk vendor),
           payment = Math_round (paymentRisk vendor) \<rparr>,
       risk_entry.riskCategory = riskCategory (overallRisk vendor) \<rparr>"

definition riskData :: "vendor_risk list \<Rightarrow> risk_entry list" where
  "riskData riskAssessment = map risk_of riskAssessment"

definition risk_assessment ::
  "string + vendor_risk list \<Rightarrow> (risk_entry list, risk_metadata) response" where
  "risk_assessment riskAssessment =
     (case riskAssessment of
        Inl message \<Rightarrow>
          ServerError (error_message message ''Failed to get risk assessment data'')
      | Inr rows \<Rightarrow>
          (let data = riskData rows
           in Success data
                \<lparr> totalVendors = length data,
                  riskDistribution =
                    \<lparr> high = length (filter (\<lambda>v. risk_entry.riskCategory v = ''High'') data),
                      medium = length (filter (\<lambda>v. risk_entry.riskCategory v = ''Medium'') data),
                      low = length (filter (\<lambda>v. risk_entry.riskCategory v = ''Low'') data) \<rparr> \<rparr>))"

section \<open>Category analysis\<close>














section \<open>Reference formulas and sample rows\<close>


definition scenario_vendor :: vendor_performance where
  "scenario_vendor =
     \<lparr> vendor_performance.vendorName = ''Tech Solutions Inc'',
       vendor_performance.vendorTaxId = Some ''12-3456789'',
       invoice_count = 45,
       total_spend = 125000,
       vendor_performance.avg_invoice_value = 25000 / 9,
       first_invoice = 0,
       last_invoice = 0,
       vendor_performance.active_months = 8,
       vendor_performance.avg_payment_terms = 61 / 2 \<rparr>"



definition credit_vendor :: vendor_risk where
  "credit_vendor =
     \<lparr> vendor_risk.vendorName = ''Refund Traders'',
       vendor_risk.vendorTaxId = None,
       total_invoices = 4,
       total_exposure = - 2000000,
       vendor_risk.avg_invoice_value = - 500000,
       invoice_variability = 0,
       late_invoices = 0,
       overdue_payments = 0,
       avg_payment_window = 30,
       relationship_start = 0,
       last_activity = 0,
       vendor_risk.active_months = 3 \<rparr>"

definition watched_vendor :: vendor_risk where
  "watched_vendor =
     \<lparr> vendor_risk.vendorName = ''Late Logistics'',
       vendor_risk.vendorTaxId = None,
       total_invoices = 100,
       total_exposure = 1000000,
       vendor_risk.avg_invoice_value = 10000,
       invoice_variability = 0,
       late_invoices = 50,
       overdue_payments = 20,
       avg_payment_window = 30,
       relationship_start = 0,
       last_activity = 0,
       vendor_risk.active_months = 24 \<rparr>"

text \<open>A number of magnitude at most \<open>b\<close>.\<close>

definition bounded_by :: "rat \<Rightarrow> jsnum \<Rightarrow> bool" where
  "bounded_by b v = (case v of Num x \<Rightarrow> \<bar>x\<bar> \<le> b | _ \<Rightarrow> False)"

definition single_month :: "trend_point list" where
  "single_month =
     [\<lparr> month = 1, invoiceCount = 2, monthlySpend = Num 100, avgInvoiceValue = Num 50 \<rparr>]"

definition six_months :: "trend_point list" where
  "six_months =
     [\<lparr> month = 6, invoiceCount = 1, monthlySpend = Num 183, avgInvoiceValue = Num 183 \<rparr>,
      \<lparr> month = 5, invoiceCount = 1, monthlySpend = Num 183, avgInvoiceValue = Num 183 \<rparr>,
      \<lparr> month = 4, invoiceCount = 1, monthlySpend = Num 183, avgInvoiceValue = Num 183 \<rparr>,
      \<lparr> month = 3, invoiceCount = 1, monthlySpend = Num 160, avgInvoiceValue = Num 160 \<rparr>,
      \<lparr> month = 2, invoiceCount = 1, monthlySpend = Num 160, avgInvoiceValue = Num 160 \<rparr>,
      \<lparr> month = 1, invoiceCount = 1, monthlySpend = Num 160, avgInvoiceValue = Num 160 \<rparr>]"

definition sample_payer :: payment_reliability where
  "sample_payer =
     \<lparr> payment_reliability.vendorName = ''Acme Supplies'',
       payment_records = 400,
       payment_reliability.avg_payment_terms = 30,
       avg_discount_rate = 2,
       overdue_count = 109,
       discount_eligible = 0,
       potential_savings = 0,
       earliest_due = 0,
       latest_due = 0 \<rparr>"


section \<open>Evaluating and bounding the arithmetic\<close>

lemma floor_numeral_div: "\<lfloor>numeral a / numeral b :: rat\<rfloor> = numeral a div numeral b"
  by (metis floor_divide_of_int_eq of_int_numeral)

lemma floor_neg_numeral_div:
  "\<lfloor>- (numeral a / numeral b) :: rat\<rfloor> = - numeral a div numeral b"
  by (metis divide_minus_left floor_divide_of_int_eq of_int_neg_numeral of_int_numeral)

lemma floor_one_div: "\<lfloor>1 / numeral b :: rat\<rfloor> = 1 div numeral b"
  by (metis floor_divide_of_int_eq of_int_1 of_int_numeral)

lemmas floor_eval = floor_numeral_div floor_neg_numeral_div floor_one_div

lemmas performance_defs =
  scorecard_of_def overallScore_def consistencyScore_def volumeScore_def reliabilityScore_def





text \<open>With a positive window the consistency score is a number between 0 and 100.\<close>

lemma consistencyScore_bounds:
  "0 < s \<Longrightarrow> \<exists>y. consistencyScore vendor (Num s) = Num y \<and> 0 \<le> y \<and> y \<le> 100"
  by (simp add: consistencyScore_def)




section \<open>The performance scorecard\<close>

text \<open>
  C1, as the code computes it. For the aggregate row with \<open>invoiceCount = 45\<close>,
  \<open>activeMonths = 8\<close> and \<open>avgPaymentTerms = 30.5\<close> and the window 12, the answer
  reports consistency 67, volume 90 and reliability 100, and the overall score 85: the
  overall score is rounded from the mean of the unrounded sub-scores
  \<open>66.67\<close>, \<open>90\<close> and \<open>99.5\<close>, which is \<open>85.39\<close>.
\<close>

theorem scenario_scores:
  "performanceScore
     (scorecard_of (Num 12)
        (vendor\<lparr>invoice_count := 45, vendor_performance.active_months := 8,
                vendor_performance.avg_payment_terms := 61 / 2\<rparr>))
   = \<lparr> performance_score.overall = Num 85, consistency = Num 67, volume = Num 90,
       reliability = Num 100 \<rparr>"
  by (simp add: performance_defs floor_eval)

text \<open>C1 as stated fails: on that row the overall score is not 86.\<close>

theorem scenario_overall_not_86:
  "performance_score.overall (performanceScore (scorecard_of (Num 12) scenario_vendor)) \<noteq> Num 86"
proof -
  have "performance_score.overall (performanceScore (scorecard_of (Num 12) scenario_vendor))
        = Num 85"
    by (simp add: scenario_vendor_def performance_defs floor_eval)
  then show ?thesis by simp
qed

text \<open>
  C2, on the code. The consistency score divides by the parsed window without a test of
  the divisor. With the window 0, a vendor that was active in some month gets
  \<^verbatim>\<open>Math.min(100, Infinity) = 100\<close>, and a row without active months gets \<^verbatim>\<open>NaN\<close>,
  which also makes the overall score \<^verbatim>\<open>NaN\<close>; neither is 0.
\<close>

theorem zero_window_consistency:
  "consistencyScore scenario_vendor (Num 0) = Num 100 \<and>
   consistency (performanceScore (scorecard_of (Num 0) scenario_vendor)) = Num 100 \<and>
   consistencyScore (scenario_vendor\<lparr>vendor_performance.active_months := 0\<rparr>) (Num 0) = NaN \<and>
   consistency
     (performanceScore
        (scorecard_of (Num 0) (scenario_vendor\<lparr>vendor_performance.active_months := 0\<rparr>))) = NaN \<and>
   performance_score.overall
     (performanceScore
        (scorecard_of (Num 0) (scenario_vendor\<lparr>vendor_performance.active_months := 0\<rparr>))) = NaN"
  by (simp add: performance_defs scenario_vendor_def floor_eval)






section \<open>Risk assessment\<close>

lemmas risk_defs =
  risk_of_def overallRisk_def exposureRisk_def variabilityRisk_def timelinessRisk_def
  paymentRisk_def risk_lateInvoiceRate_def risk_overdueRate_def

text \<open>
  C4, on the code. The comment of line 316 announces risk scores from 0 to 100, yet the
  exposure risk is only bounded above: a vendor whose invoices of the period sum to a
  negative total (credit notes) gets a negative exposure risk, and a negative overall
  risk. For a total of \<open>-2,000,000\<close> the exposure risk is \<open>-200\<close> and the overall
  risk is \<open>-60\<close>.
\<close>

theorem negative_exposure_risk:
  "exposureRisk credit_vendor = Num (- 200) \<and>
   overallRisk credit_vendor = Num (- 60) \<and>
   riskScores (risk_of credit_vendor) =
     \<lparr> risk_scores.overall = Num (- 60), exposure = Num (- 200), variability = Num 0,
       timeliness = Num 0, payment = Num 0 \<rparr>"
  by (simp add: credit_vendor_def risk_defs floor_eval)

text \<open>When the total exposure and the variability are not negative, the four risks are
  numbers between 0 and 100, and the overall risk is their rounded weighted sum with the
  weights 0.3, 0.2, 0.25 and 0.25, between 0 and 100 as well.\<close>

lemma exposureRisk_Num:
  "0 \<le> total_exposure vendor \<Longrightarrow> \<exists>e. exposureRisk vendor = Num e \<and> 0 \<le> e \<and> e \<le> 100"
  by (simp add: exposureRisk_def)

lemma variabilityRisk_Num:
  "0 \<le> invoice_variability vendor \<Longrightarrow>
   \<exists>v. variabilityRisk vendor = Num v \<and> 0 \<le> v \<and> v \<le> 100"
  by (cases "0 < vendor_risk.avg_invoice_value vendor") (simp_all add: variabilityRisk_def)

lemma timelinessRisk_Num: "\<exists>t. timelinessRisk vendor = Num t \<and> 0 \<le> t \<and> t \<le> 100"
  by (simp add: timelinessRisk_def risk_lateInvoiceRate_def)

lemma paymentRisk_Num: "\<exists>p. paymentRisk vendor = Num p \<and> 0 \<le> p \<and> p \<le> 100"
  by (simp add: paymentRisk_def risk_overdueRate_def)

lemma risk_scores_bounded:
  assumes "0 \<le> total_exposure vendor" and "0 \<le> invoice_variability vendor"
  shows "\<exists>e v t p k.
           exposureRisk vendor = Num e \<and> 0 \<le> e \<and> e \<le> 100 \<and>
           variabilityRisk vendor = Num v \<and> 0 \<le> v \<and> v \<le> 100 \<and>
           timelinessRisk vendor = Num t \<and> 0 \<le> t \<and> t \<le> 100 \<and>
           paymentRisk vendor = Num p \<and> 0 \<le> p \<and> p \<le> 100 \<and>
           overallRisk vendor = Num (rat_of_int k) \<and>
           k = round (e * (3 / 10) + v * (2 / 10) + t * (25 / 100) + p * (25 / 100)) \<and>
           0 \<le> k \<and> k \<le> 100"
proof -
  obtain e where e: "exposureRisk vendor = Num e" "0 \<le> e" "e \<le> 100"
    using exposureRisk_Num [OF assms(1)] by blast
  obtain v where v: "variabilityRisk vendor = Num v" "0 \<le> v" "v \<le> 100"
    using variabilityRisk_Num [OF assms(2)] by blast
  obtain t where t: "timelinessRisk vendor = Num t" "0 \<le> t" "t \<le> 100"
    using timelinessRisk_Num by blast
  obtain p where p: "paymentRisk vendor = Num p" "0 \<le> p" "p \<le> 100"
    using paymentRisk_Num by blast
  define s where "s = e * (3 / 10) + v * (2 / 10) + t * (25 / 100) + p * (25 / 100)"
  have s: "0 \<le> s" "s \<le> 100"
    using e v t p by (simp_all add: s_def field_simps)
  have k: "0 \<le> round s" "round s \<le> 100"
    using s by (simp_all add: round_def le_floor_iff floor_le_iff)
  have "overallRisk vendor = Num (rat_of_int (round s))"
    by (simp add: overallRisk_def e v t p s_def round_def)
  with e v t p k show ?thesis unfolding s_def by blast
qed

text \<open>
  C5. The category of the answer is derived from the overall risk that the answer
  reports, by strict comparisons: above 70 it is High, above 40 and up to 70 it is
  Medium, and up to 40 it is Low; so 70 is Medium, 71 is High, 40 is Low and 41 is
  Medium.
\<close>

theorem risk_category_thresholds:
  "risk_entry.riskCategory (risk_of vendor) =
     riskCategory (risk_scores.overall (riskScores (risk_of vendor))) \<and>
   (70 < r \<longrightarrow> riskCategory (Num r) = ''High'') \<and>
   (40 < r \<and> r \<le> 70 \<longrightarrow> riskCategory (Num r) = ''Medium'') \<and>
   (r \<le> 40 \<longrightarrow> riskCategory (Num r) = ''Low'') \<and>
   riskCategory (Num 70) = ''Medium'' \<and> riskCategory (Num 71) = ''High'' \<and>
   riskCategory (Num 40) = ''Low'' \<and> riskCategory (Num 41) = ''Medium''"
  by (simp add: riskCategory_def risk_of_def)

theorem risk_category_thresholds_witness:
  "(70::rat) < 85 \<and> riskCategory (Num 85) = ''High'' \<and>
   (40::rat) < 55 \<and> (55::rat) \<le> 70 \<and> riskCategory (Num 55) = ''Medium'' \<and>
   (12::rat) \<le> 40 \<and> riskCategory (Num 12) = ''Low'' \<and>
   risk_scores.overall (riskScores (risk_of watched_vendor)) = Num 70 \<and>
   risk_entry.riskCategory (risk_of watched_vendor) = ''Medium''"
proof -
  have h: "(70::rat) < 85" "(40::rat) < 55 \<and> (55::rat) \<le> 70" "(12::rat) \<le> 40" by simp_all
  have o: "risk_scores.overall (riskScores (risk_of watched_vendor)) = Num 70"
    by (simp add: watched_vendor_def risk_defs floor_eval)
  from risk_category_thresholds [of watched_vendor 85]
    risk_category_thresholds [of watched_vendor 55]
    risk_category_thresholds [of watched_vendor 12] h o
  show ?thesis by simp
qed

lemma riskCategory_cases:
  "riskCategory x = ''High'' \<or> riskCategory x = ''Medium'' \<or> riskCategory x = ''Low''"
  by (simp add: riskCategory_def)

lemma count_by_three:
  assumes "\<And>x. f x = a \<or> f x = b \<or> f x = c" and "a \<noteq> b" and "a \<noteq> c" and "b \<noteq> c"
  shows "length (filter (\<lambda>x. f x = a) xs) + length (filter (\<lambda>x. f x = b) xs) +
         length (filter (\<lambda>x. f x = c) xs) = length xs"
proof (induction xs)
  case Nil
  show ?case by simp
next
  case (Cons x xs)
  from assms(1) [of x] Cons assms(2-4) show ?case by auto
qed

lemma risk_of_category: "risk_entry.riskCategory (risk_of vendor) = riskCategory (overallRisk vendor)"
  by (simp add: risk_of_def)

text \<open>
  C9. A successful risk assessment gives every vendor exactly one of the three
  categories High, Medium and Low, so the three counts of the risk distribution add up
  to \<open>totalVendors\<close>, which is the length of the data array (and of the query result).
\<close>

theorem risk_distribution_total:
  "\<exists>data meta.
     risk_assessment (Inr rows) = Success data meta \<and>
     data = riskData rows \<and>
     length data = length rows \<and>
     totalVendors meta = length data \<and>
     high (riskDistribution meta) + medium (riskDistribution meta) + low (riskDistribution meta)
       = totalVendors meta \<and>
     set (map risk_entry.riskCategory data) \<subseteq> {''High'', ''Medium'', ''Low''} \<and>
     distinct [''High'', ''Medium'', ''Low'']"
proof -
  have sub: "set (map risk_entry.riskCategory (riskData rows)) \<subseteq> {''High'', ''Medium'', ''Low''}"
    by (auto simp: riskData_def risk_of_category riskCategory_def)
  have "length (filter (\<lambda>v. riskCategory (overallRisk v) = ''High'') rows) +
        length (filter (\<lambda>v. riskCategory (overallRisk v) = ''Medium'') rows) +
        length (filter (\<lambda>v. riskCategory (overallRisk v) = ''Low'') rows) = length rows"
    by (rule count_by_three) (simp_all add: riskCategory_cases)
  then have sum: "length (filter (\<lambda>v. risk_entry.riskCategory v = ''High'') (riskData rows)) +
        length (filter (\<lambda>v. risk_entry.riskCategory v = ''Medium'') (riskData rows)) +
        length (filter (\<lambda>v. risk_entry.riskCategory v = ''Low'') (riskData rows)) = length rows"
    by (simp add: riskData_def filter_map o_def risk_of_category)
  have len: "length (riskData rows) = length rows" by (simp add: riskData_def)
  show ?thesis using sub sum len by (simp add: risk_assessment_def Let_def)
qed

section \<open>Slices\<close>


lemma js_truncate_neg_of_nat: "js_truncate (- rat_of_nat n) = - int n"
proof -
  have "\<lceil>- rat_of_nat n\<rceil> = - int n"
    by (metis ceiling_of_int of_int_minus of_int_of_nat_eq)
  then show ?thesis by (cases n) (simp_all add: js_truncate_def)
qed

lemma js_truncate_minus_one: "js_truncate (- 1) = - 1"
  by (simp add: js_truncate_def ceiling_def)

lemma js_truncate_zero: "js_truncate 0 = 0"
  by (simp add: js_truncate_def)

lemma js_truncate_numeral: "js_truncate (numeral w) = numeral w" "js_truncate (- numeral w) = - numeral w"
  by (simp_all add: js_truncate_def)

lemma relative_index_le: "relative_index len i \<le> len"
  by (cases i) (auto simp: Let_def)


lemma relative_index_neg: "relative_index len (Num (- rat_of_nat (Suc k))) = len - Suc k"
  by (simp add: js_truncate_neg_of_nat del: of_nat_Suc)


lemma slice_last_three: "slice xs (Num (- 3)) None = drop (length xs - 3) xs"
proof -
  have "relative_index (length xs) (Num (- 3)) = length xs - 3"
    by (simp add: js_truncate_numeral)
  then show ?thesis by (simp add: slice_def Let_def)
qed

lemma slice_three_before:
  "slice xs (Num (- 6)) (Some (Num (- 3))) = drop (length xs - 6) (take (length xs - 3) xs)"
proof -
  have "relative_index (length xs) (Num (- 3)) = length xs - 3"
    "relative_index (length xs) (Num (- 6)) = length xs - 6"
    by (simp_all add: js_truncate_numeral)
  then show ?thesis by (simp add: slice_def Let_def drop_take)
qed

section \<open>Rounding to doubles\<close>

lemma ties_even_between: "\<lfloor>y\<rfloor> \<le> ties_even y \<and> ties_even y \<le> \<lceil>y\<rceil>"
proof -
  have "\<lfloor>y\<rfloor> + 1 \<le> \<lceil>y\<rceil>" if "y \<noteq> of_int \<lfloor>y\<rfloor>"
    using that by (metis ceiling_altdef order_refl)
  moreover have "\<lfloor>y\<rfloor> \<le> \<lceil>y\<rceil>" by (rule floor_le_ceiling)
  ultimately show ?thesis
    by (auto simp: ties_even_def Let_def)
qed

lemma ties_even_le: "y \<le> of_int N \<Longrightarrow> ties_even y \<le> N"
  using ties_even_between [of y] by (meson ceiling_le order_trans)

lemma ties_even_nonneg: "0 \<le> y \<Longrightarrow> 0 \<le> ties_even y"
  using ties_even_between [of y] by (meson order_trans zero_le_floor)

lemma exponent_le:
  assumes "0 < a"
  shows "2 powi (exponent a) \<le> a"
proof (cases "1 \<le> a")
  case True
  define n where "n = \<lfloor>a\<rfloor>"
  have n: "0 < n" using True by (simp add: n_def)
  from bitlen_bounds [OF n] have "2 ^ nat (bitlen n - 1) \<le> n" by simp
  then have "rat_of_int (2 ^ nat (bitlen n - 1)) \<le> of_int n" by (simp only: of_int_le_iff)
  also have "\<dots> \<le> a" by (simp add: n_def)
  finally have "2 ^ nat (bitlen n - 1) \<le> a" by simp
  moreover have "0 \<le> bitlen n - 1"
    using n bitlen_nonneg [of n] bitlen_eq_zero_iff [of n] by linarith
  ultimately show ?thesis using True by (simp add: exponent_def n_def power_int_def)
next
  case False
  define m where "m = \<lceil>1 / a\<rceil> - 1"
  have "1 < 1 / a" using False assms by simp
  then have m: "0 < m" unfolding m_def by linarith
  have b: "0 < bitlen m"
    using m bitlen_nonneg [of m] bitlen_eq_zero_iff [of m] by linarith
  from bitlen_bounds [OF m] have "m < 2 ^ nat (bitlen m)" by simp
  then have "m + 1 \<le> 2 ^ nat (bitlen m)" by simp
  then have "rat_of_int (m + 1) \<le> of_int (2 ^ nat (bitlen m))" by (simp only: of_int_le_iff)
  moreover have "1 / a \<le> of_int (m + 1)" unfolding m_def by simp
  ultimately have "1 / a \<le> 2 ^ nat (bitlen m)" by simp
  then have "1 \<le> 2 ^ nat (bitlen m) * a" using assms by (simp add: field_simps)
  then have "inverse 2 ^ nat (bitlen m) \<le> a"
    by (simp add: power_inverse field_simps)
  then show ?thesis using False b by (simp add: exponent_def m_def power_int_def)
qed

lemma exponent_at_most:
  assumes "0 < a" and "a \<le> 2 ^ k"
  shows "exponent a \<le> int k"
proof -
  have "(2::rat) powi (exponent a) \<le> 2 powi (int k)"
    using exponent_le [OF assms(1)] assms(2) by simp
  then show ?thesis by (rule power_int_le_imp_le_exp [rotated]) simp_all
qed

text \<open>Rounding does not leave an interval whose ends are powers of two.\<close>

lemma fl_le_pow:
  assumes "\<bar>x\<bar> \<le> 2 ^ k"
  shows "\<bar>fl x\<bar> \<le> 2 ^ k"
proof (cases "x = 0")
  case True
  then show ?thesis by (simp add: fl_def)
next
  case False
  define a where "a = \<bar>x\<bar>"
  define E where "E = max (exponent a) (- 1022) - 52"
  define u :: rat where "u = 2 powi E"
  define t where "t = ties_even (a / u)"
  have a: "0 < a" using False by (simp add: a_def)
  have u: "0 < u" by (simp add: u_def)
  have "exponent a \<le> int k" using a assms by (intro exponent_at_most) (simp_all add: a_def)
  then have E: "E \<le> int k" by (simp add: E_def)
  define N :: int where "N = 2 ^ nat (int k - E)"
  have "(2::rat) ^ k = 2 powi (int k)" by simp
  also have "\<dots> = 2 powi (int k - E) * 2 powi E" by (simp add: power_int_add [symmetric])
  also have "(2::rat) powi (int k - E) = of_int N" using E by (simp add: N_def power_int_def)
  finally have Nu: "(2::rat) ^ k = of_int N * u" by (simp add: u_def)
  have "a / u \<le> of_int N" using assms u by (simp add: a_def Nu field_simps)
  then have "t \<le> N" unfolding t_def by (rule ties_even_le)
  moreover have "0 \<le> t" unfolding t_def using a u by (intro ties_even_nonneg) simp
  ultimately have "rat_of_int t * u \<le> of_int N * u" "0 \<le> rat_of_int t * u"
    using u by (simp_all add: mult_right_mono)
  moreover have "\<bar>fl x\<bar> = rat_of_int t * u"
    using False \<open>0 \<le> t\<close> u
    by (simp add: fl_def Let_def a_def [symmetric] E_def [symmetric] u_def [symmetric]
        t_def [symmetric] abs_mult)
  ultimately show ?thesis by (simp add: Nu)
qed

lemma fl_0: "fl 0 = 0"
  by (simp add: fl_def)

lemma huge_gt: "k \<le> 1023 \<Longrightarrow> (2::rat) ^ k < huge"
  unfolding huge_def by (rule power_strict_increasing) simp_all

lemma rnd_Num:
  assumes "\<bar>x\<bar> \<le> 2 ^ k" and "k \<le> 1023"
  shows "rnd (Num x) = Num (fl x)"
proof -
  have "\<bar>fl x\<bar> < huge" using fl_le_pow [OF assms(1)] huge_gt [OF assms(2)] by linarith
  then show ?thesis by (simp add: abs_less_iff not_le)
qed

lemma rnd_0: "rnd (Num 0) = Num 0"
  using rnd_Num [of 0 0] by (simp add: fl_0)

lemma fl_consts:
  "fl (1 / 2) = 1 / 2" "fl 50 = 50" "fl 100 = 100" "fl 5000 = 5000" "fl 1 = 1"
  by code_simp+

lemma f_add_Num: "\<bar>x + y\<bar> \<le> 2 ^ k \<Longrightarrow> k \<le> 1023 \<Longrightarrow> f_add (Num x) (Num y) = Num (fl (x + y))"
  by (simp add: f_add_def rnd_Num del: rnd.simps)

lemma f_sub_Num: "\<bar>x - y\<bar> \<le> 2 ^ k \<Longrightarrow> k \<le> 1023 \<Longrightarrow> f_sub (Num x) (Num y) = Num (fl (x - y))"
  by (simp add: f_sub_def rnd_Num del: rnd.simps)

lemma f_mul_Num: "\<bar>x * y\<bar> \<le> 2 ^ k \<Longrightarrow> k \<le> 1023 \<Longrightarrow> f_mul (Num x) (Num y) = Num (fl (x * y))"
  by (simp add: f_mul_def rnd_Num del: rnd.simps)

lemma f_div_Num:
  "y \<noteq> 0 \<Longrightarrow> \<bar>x / y\<bar> \<le> 2 ^ k \<Longrightarrow> k \<le> 1023 \<Longrightarrow> f_div (Num x) (Num y) = Num (fl (x / y))"
  by (simp add: f_div_def rnd_Num del: rnd.simps)

section \<open>Payment reliability\<close>

lemma payment_overdueRate_Num:
  assumes "payment_records vendor < 2 ^ 31" and "overdue_count vendor < 2 ^ 31"
  shows "payment_overdueRate vendor =
           Num (rounded_rate (overdue_count vendor) (payment_records vendor)) \<and>
         \<bar>rounded_rate (overdue_count vendor) (payment_records vendor)\<bar> \<le> 2 ^ 38"
proof (cases "0 < payment_records vendor")
  case False
  then show ?thesis by (simp add: payment_overdueRate_def rounded_rate_def)
next
  case True
  define c where "c = rat_of_nat (overdue_count vendor)"
  define r where "r = rat_of_nat (payment_records vendor)"
  have c: "0 \<le> c" "c \<le> 2 ^ 31"
    using assms(2) by (simp_all add: c_def)
  from True have r: "1 \<le> r" by (simp add: r_def)
  have q: "\<bar>c / r\<bar> \<le> 2 ^ 31"
  proof -
    have "c * 1 \<le> c * r" using r c(1) by (rule mult_left_mono)
    then have "c / r \<le> c" using r by (simp add: field_simps)
    moreover have "0 \<le> c / r" using c(1) r by simp
    ultimately show ?thesis using c(2) by linarith
  qed
  have d: "f_div (Num c) (Num r) = Num (fl (c / r))"
    using r q by (intro f_div_Num [where k = 31]) simp_all
  have "\<bar>fl (c / r)\<bar> \<le> 2 ^ 31" using q by (rule fl_le_pow)
  then have "\<bar>fl (c / r) * 100\<bar> \<le> 2 ^ 31 * 2 ^ 7"
    unfolding abs_mult by (intro mult_mono) simp_all
  then have m: "\<bar>fl (c / r) * 100\<bar> \<le> 2 ^ 38" by simp
  have "f_mul (Num (fl (c / r))) (Num 100) = Num (fl (fl (c / r) * 100))"
    using m by (intro f_mul_Num [where k = 38]) simp_all
  with True d have "payment_overdueRate vendor =
      Num (rounded_rate (overdue_count vendor) (payment_records vendor))"
    by (simp add: payment_overdueRate_def rounded_rate_def c_def r_def)
  moreover from m have "\<bar>fl (fl (c / r) * 100)\<bar> \<le> 2 ^ 38" by (rule fl_le_pow)
  with True have "\<bar>rounded_rate (overdue_count vendor) (payment_records vendor)\<bar> \<le> 2 ^ 38"
    by (simp add: rounded_rate_def c_def r_def)
  ultimately show ?thesis by blast
qed

lemma abs_div_100: "\<bar>x / 100\<bar> \<le> \<bar>x :: rat\<bar>"
proof -
  have "\<bar>x / 100\<bar> = \<bar>x\<bar> / 100" by simp
  then show ?thesis by linarith
qed

lemma floor_half_le:
  fixes z :: rat
  assumes "\<bar>z\<bar> \<le> 2 ^ k"
  shows "\<bar>rat_of_int \<lfloor>z + 1 / 2\<rfloor>\<bar> \<le> 2 ^ Suc k"
proof -
  define n where "n = rat_of_int \<lfloor>z + 1 / 2\<rfloor>"
  have a: "n \<le> z + 1 / 2" "z + 1 / 2 < n + 1" unfolding n_def by linarith+
  have b: "(1::rat) \<le> 2 ^ k" by simp
  have c: "z \<le> 2 ^ k" "- z \<le> 2 ^ k" using assms by (simp_all add: abs_le_iff)
  have "n \<le> 2 * 2 ^ k" "- n \<le> 2 * 2 ^ k" using a b c by linarith+
  then show ?thesis by (simp add: n_def abs_le_iff)
qed

lemma two_decimals_Num:
  assumes "\<bar>g\<bar> \<le> 2 ^ k" and "k \<le> 1000"
  shows "f_div (Math_round (f_mul (Num g) (Num 100))) (Num 100) =
           Num (fl (rat_of_int \<lfloor>fl (g * 100) + 1 / 2\<rfloor> / 100))"
proof -
  have "\<bar>g * 100\<bar> \<le> 2 ^ k * 2 ^ 7" unfolding abs_mult using assms(1) by (intro mult_mono) simp_all
  then have m: "\<bar>g * 100\<bar> \<le> 2 ^ (k + 7)" by (simp add: power_add)
  have 1: "f_mul (Num g) (Num 100) = Num (fl (g * 100))"
    using m assms(2) by (intro f_mul_Num [where k = "k + 7"]) simp_all
  from m have "\<bar>fl (g * 100)\<bar> \<le> 2 ^ (k + 7)" by (rule fl_le_pow)
  then have "\<bar>rat_of_int \<lfloor>fl (g * 100) + 1 / 2\<rfloor>\<bar> \<le> 2 ^ Suc (k + 7)" by (rule floor_half_le)
  then have "\<bar>rat_of_int \<lfloor>fl (g * 100) + 1 / 2\<rfloor> / 100\<bar> \<le> 2 ^ Suc (k + 7)"
    using abs_div_100 [of "rat_of_int \<lfloor>fl (g * 100) + 1 / 2\<rfloor>"] by linarith
  then have "f_div (Num (rat_of_int \<lfloor>fl (g * 100) + 1 / 2\<rfloor>)) (Num 100) =
      Num (fl (rat_of_int \<lfloor>fl (g * 100) + 1 / 2\<rfloor> / 100))"
    using assms(2) by (intro f_div_Num [where k = "Suc (k + 7)"]) simp_all
  with 1 show ?thesis by simp
qed

lemma payment_score_Num:
  assumes "\<bar>rate\<bar> \<le> 2 ^ 38"
  shows "Math_round (Math_max (Num 0) (f_sub (Num 100) (f_mul (Num rate) (Num 2)))) =
           Num (rat_of_int \<lfloor>max 0 (fl (100 - fl (rate * 2))) + 1 / 2\<rfloor>)"
proof -
  have "\<bar>rate * 2\<bar> \<le> 2 ^ 38 * 2 ^ 1" unfolding abs_mult using assms by (intro mult_mono) simp_all
  then have m: "\<bar>rate * 2\<bar> \<le> 2 ^ 39" by simp
  have 1: "f_mul (Num rate) (Num 2) = Num (fl (rate * 2))"
    using m by (intro f_mul_Num [where k = 39]) simp_all
  from m have "\<bar>fl (rate * 2)\<bar> \<le> 2 ^ 39" by (rule fl_le_pow)
  then have "\<bar>100 - fl (rate * 2)\<bar> \<le> 2 ^ 40" by (simp add: abs_le_iff)
  then have "f_sub (Num 100) (Num (fl (rate * 2))) = Num (fl (100 - fl (rate * 2)))"
    by (intro f_sub_Num [where k = 40]) simp_all
  with 1 show ?thesis by simp
qed

lemma sample_payer_rounding:
  "\<lfloor>max 0 (fl (100 - fl (fl (fl (109 / 400) * 100) * 2))) + 1 / 2\<rfloor> = 45"
  "fl (rat_of_int \<lfloor>fl (fl (fl (109 / 400) * 100) * 100) + 1 / 2\<rfloor> / 100) = fl (2725 / 100)"
  "\<lfloor>max 0 (100 - 2 * (109 / 400 * 100)) + 1 / 2 :: rat\<rfloor> = 46"
  by code_simp+

text \<open>
  C6. For every row whose two counts fit the \<^verbatim>\<open>int\<close> columns that the query casts
  them to, the overdue rate is a finite number: the quotient of the two counts times 100,
  each of the two operations rounded to a double, when \<open>payment_records\<close> is positive,
  and 0 otherwise. The answer reports this rate rounded to two decimals, and as
  reliability score the rounded \<open>max(0, 100 - overdueRate * 2)\<close>, again in the
  arithmetic of the program. No overdue record out of 10 gives the rate 0 and the score
  100; 5 out of 10 give the rate 50 and the score 0. (At 109 overdue records out of 400
  the rounding decides the score: the rate is the double above 27.25, and the score is 45,
  where exact arithmetic gives 46.)
\<close>

theorem payment_reliability_formula:
  assumes "payment_records vendor < 2 ^ 31" and "overdue_count vendor < 2 ^ 31"
  shows "(\<exists>rate.
            payment_overdueRate vendor = Num rate \<and>
            rate = (if 0 < payment_records vendor
                    then fl (fl (rat_of_nat (overdue_count vendor) /
                                 rat_of_nat (payment_records vendor)) * 100)
                    else 0) \<and>
            reliability_entry.overdueRate (reliability_of vendor) =
              Num (fl (rat_of_int \<lfloor>fl (rate * 100) + 1 / 2\<rfloor> / 100)) \<and>
            reliability_entry.reliabilityScore (reliability_of vendor) =
              Num (rat_of_int \<lfloor>max 0 (fl (100 - fl (rate * 2))) + 1 / 2\<rfloor>)) \<and>
         reliability_entry.overdueRate
           (reliability_of (vendor\<lparr>overdue_count := 0, payment_records := 10\<rparr>)) = Num 0 \<and>
         reliability_entry.reliabilityScore
           (reliability_of (vendor\<lparr>overdue_count := 0, payment_records := 10\<rparr>)) = Num 100 \<and>
         reliability_entry.overdueRate
           (reliability_of (vendor\<lparr>overdue_count := 5, payment_records := 10\<rparr>)) = Num 50 \<and>
         reliability_entry.reliabilityScore
           (reliability_of (vendor\<lparr>overdue_count := 5, payment_records := 10\<rparr>)) = Num 0"
proof -
  have general:
    "payment_overdueRate v = Num (rounded_rate (overdue_count v) (payment_records v)) \<and>
     reliability_entry.overdueRate (reliability_of v) =
       Num (fl (rat_of_int
         \<lfloor>fl (rounded_rate (overdue_count v) (payment_records v) * 100) + 1 / 2\<rfloor> / 100)) \<and>
     reliability_entry.reliabilityScore (reliability_of v) =
       Num (rat_of_int
         \<lfloor>max 0 (fl (100 - fl (rounded_rate (overdue_count v) (payment_records v) * 2)))
            + 1 / 2\<rfloor>)"
    if "payment_records v < 2 ^ 31" and "overdue_count v < 2 ^ 31" for v
  proof -
    from payment_overdueRate_Num [OF that]
    have r: "payment_overdueRate v = Num (rounded_rate (overdue_count v) (payment_records v))"
      and b: "\<bar>rounded_rate (overdue_count v) (payment_records v)\<bar> \<le> 2 ^ 38"
      by blast+
    show ?thesis
      using two_decimals_Num [OF b] payment_score_Num [OF b]
      by (simp add: r reliability_of_def payment_reliabilityScore_def)
  qed
  have none: "rounded_rate 0 10 = 0" and half: "rounded_rate 5 10 = 50"
    by (simp_all add: rounded_rate_def fl_0 fl_consts)
  have "reliability_entry.overdueRate
           (reliability_of (vendor\<lparr>overdue_count := 0, payment_records := 10\<rparr>)) = Num 0"
    "reliability_entry.reliabilityScore
           (reliability_of (vendor\<lparr>overdue_count := 0, payment_records := 10\<rparr>)) = Num 100"
    using general [of "vendor\<lparr>overdue_count := 0, payment_records := 10\<rparr>"]
    by (simp_all add: none fl_0 fl_consts floor_eval)
  moreover have "reliability_entry.overdueRate
           (reliability_of (vendor\<lparr>overdue_count := 5, payment_records := 10\<rparr>)) = Num 50"
    "reliability_entry.reliabilityScore
           (reliability_of (vendor\<lparr>overdue_count := 5, payment_records := 10\<rparr>)) = Num 0"
    using general [of "vendor\<lparr>overdue_count := 5, payment_records := 10\<rparr>"]
    by (simp_all add: half fl_0 fl_consts floor_eval)
  moreover note general [OF assms]
  ultimately show ?thesis by (simp add: rounded_rate_def)
qed

theorem payment_reliability_formula_witness:
  "payment_records sample_payer < 2 ^ 31 \<and> overdue_count sample_payer < 2 ^ 31 \<and>
   reliability_entry.reliabilityScore (reliability_of sample_payer) = Num 45 \<and>
   reliability_entry.overdueRate (reliability_of sample_payer) = Num (fl (2725 / 100))"
proof -
  have h: "payment_records sample_payer < 2 ^ 31" "overdue_count sample_payer < 2 ^ 31"
    by (simp_all add: sample_payer_def)
  from payment_reliability_formula [OF h]
  have "\<exists>rate.
          rate = (if 0 < payment_records sample_payer
                  then fl (fl (rat_of_nat (overdue_count sample_payer) /
                               rat_of_nat (payment_records sample_payer)) * 100)
                  else 0) \<and>
          reliability_entry.overdueRate (reliability_of sample_payer) =
            Num (fl (rat_of_int \<lfloor>fl (rate * 100) + 1 / 2\<rfloor> / 100)) \<and>
          reliability_entry.reliabilityScore (reliability_of sample_payer) =
            Num (rat_of_int \<lfloor>max 0 (fl (100 - fl (rate * 2))) + 1 / 2\<rfloor>)"
    by blast
  moreover have "rat_of_nat (overdue_count sample_payer) / rat_of_nat (payment_records sample_payer)
      = 109 / 400"
    "0 < payment_records sample_payer"
    by (simp_all add: sample_payer_def)
  ultimately have
    "reliability_entry.overdueRate (reliability_of sample_payer) =
       Num (fl (rat_of_int \<lfloor>fl (fl (fl (109 / 400) * 100) * 100) + 1 / 2\<rfloor> / 100))"
    "reliability_entry.reliabilityScore (reliability_of sample_payer) =
       Num (rat_of_int \<lfloor>max 0 (fl (100 - fl (fl (fl (109 / 400) * 100) * 2))) + 1 / 2\<rfloor>)"
    by auto
  then show ?thesis using h by (simp only: sample_payer_rounding) simp
qed

section \<open>Spending trends\<close>

lemma bounded_by_Num: "bounded_by b (Num x) \<longleftrightarrow> \<bar>x\<bar> \<le> b"
  by (simp add: bounded_by_def)

lemma bounded_byE:
  assumes "bounded_by b v"
  obtains x where "v = Num x" and "\<bar>x\<bar> \<le> b"
  using assms by (cases v) (simp_all add: bounded_by_def)

lemma rnd_NaN_iff: "rnd v = NaN \<longleftrightarrow> v = NaN"
  by (cases v) simp_all

lemma times_100_NaN_iff: "f_mul v (Num 100) = NaN \<longleftrightarrow> v = NaN"
  unfolding f_mul_def rnd_NaN_iff by (cases v) simp_all

lemma by_100_NaN_iff: "f_div v (Num 100) = NaN \<longleftrightarrow> v = NaN"
  unfolding f_div_def rnd_NaN_iff by (cases v) simp_all

lemma Math_round_NaN_iff: "Math_round v = NaN \<longleftrightarrow> v = NaN"
  by (cases v) simp_all

lemma two_decimals_NaN_iff:
  "f_div (Math_round (f_mul v (Num 100))) (Num 100) = NaN \<longleftrightarrow> v = NaN"
  by (simp only: by_100_NaN_iff Math_round_NaN_iff times_100_NaN_iff)

lemma two_decimals_0: "f_div (Math_round (f_mul (Num 0) (Num 100))) (Num 100) = Num 0"
  using two_decimals_Num [of 0 0] by (simp add: fl_0 floor_eval)

lemma quotient_not_NaN: "p \<noteq> 0 \<Longrightarrow> f_div (Num d) (Num p) \<noteq> NaN"
  unfolding f_div_def rnd_NaN_iff by simp

lemma spend_fold_bounded:
  assumes "list_all (\<lambda>t. bounded_by (2 ^ 1000) (monthlySpend t)) ts"
    and "\<bar>a\<bar> \<le> 2 ^ k" and "1000 \<le> k" and "k + length ts \<le> 1023"
  shows "\<exists>s. foldl (\<lambda>sum t. f_add sum (monthlySpend t)) (Num a) ts = Num s \<and>
             \<bar>s\<bar> \<le> 2 ^ (k + length ts)"
  using assms
proof (induction ts arbitrary: a k)
  case Nil
  then show ?case by simp
next
  case (Cons t ts)
  from Cons.prems(1) obtain x where x: "monthlySpend t = Num x" "\<bar>x\<bar> \<le> 2 ^ 1000"
    by (auto elim: bounded_byE)
  have "(2::rat) ^ 1000 \<le> 2 ^ k" using Cons.prems(3) by (intro power_increasing) simp_all
  with x(2) Cons.prems(2) have sum: "\<bar>a + x\<bar> \<le> 2 ^ Suc k" by (simp add: abs_le_iff)
  have k: "Suc k \<le> 1023" using Cons.prems(4) by simp
  have step: "f_add (Num a) (Num x) = Num (fl (a + x))" using sum k by (rule f_add_Num)
  have "\<exists>s. foldl (\<lambda>sum t. f_add sum (monthlySpend t)) (Num (fl (a + x))) ts = Num s \<and>
             \<bar>s\<bar> \<le> 2 ^ (Suc k + length ts)"
  proof (rule Cons.IH)
    show "list_all (\<lambda>t. bounded_by (2 ^ 1000) (monthlySpend t)) ts" using Cons.prems(1) by simp
    show "\<bar>fl (a + x)\<bar> \<le> 2 ^ Suc k" using sum by (rule fl_le_pow)
    show "1000 \<le> Suc k" using Cons.prems(3) by simp
    show "Suc k + length ts \<le> 1023" using Cons.prems(4) by simp
  qed
  then show ?case by (simp add: x(1) step)
qed

lemma spend_sum_bounded:
  assumes "list_all (\<lambda>t. bounded_by (2 ^ 1000) (monthlySpend t)) ts" and "length ts \<le> 3"
  shows "\<exists>s. spend_sum ts = Num s \<and> \<bar>s\<bar> \<le> 2 ^ 1003"
proof -
  from spend_fold_bounded [OF assms(1), of 0 1000] assms(2)
  obtain s where s: "spend_sum ts = Num s" "\<bar>s\<bar> \<le> 2 ^ (1000 + length ts)"
    by (auto simp: spend_sum_def)
  have "(2::rat) ^ (1000 + length ts) \<le> 2 ^ 1003"
    using assms(2) by (intro power_increasing) simp_all
  with s show ?thesis by (intro exI [of _ s]) linarith
qed

lemma average_bounded:
  assumes "list_all (\<lambda>t. bounded_by (2 ^ 1000) (monthlySpend t)) ts"
    and "length ts \<le> 3" and "ts \<noteq> []"
  shows "\<exists>m. f_div (spend_sum ts) (Num (rat_of_nat (length ts))) = Num m \<and> \<bar>m\<bar> \<le> 2 ^ 1003"
proof -
  from spend_sum_bounded [OF assms(1,2)]
  obtain s where s: "spend_sum ts = Num s" "\<bar>s\<bar> \<le> 2 ^ 1003" by blast
  define n where "n = rat_of_nat (length ts)"
  have n: "1 \<le> n" using assms(3) by (cases ts) (simp_all add: n_def)
  have "\<bar>s / n\<bar> \<le> \<bar>s\<bar>"
  proof -
    have "\<bar>s\<bar> * 1 \<le> \<bar>s\<bar> * n" using n by (intro mult_left_mono) simp_all
    then show ?thesis using n by (simp add: abs_divide field_simps)
  qed
  with s(2) have q: "\<bar>s / n\<bar> \<le> 2 ^ 1003" by linarith
  then have "f_div (Num s) (Num n) = Num (fl (s / n))"
    using n by (intro f_div_Num [where k = 1003]) simp_all
  moreover have "\<bar>fl (s / n)\<bar> \<le> 2 ^ 1003" using q by (rule fl_le_pow)
  ultimately show ?thesis by (simp add: s(1) n_def)
qed

lemma sortedTrends_facts:
  "sorted (map month (sortedTrends points))"
  "length (sortedTrends points) = length points"
  "list_all P (sortedTrends points) = list_all P points"
  by (simp_all add: sortedTrends_def list_all_iff)

lemma sortedTrends_Nil: "sortedTrends points = [] \<longleftrightarrow> points = []"
  by (metis length_sort length_0_conv sortedTrends_def)

lemma recent_eq: "recent ts = drop (length ts - 3) ts"
  by (simp add: recent_def slice_last_three)

lemma previous_eq: "previous ts = drop (length ts - 6) (take (length ts - 3) ts)"
  by (simp add: previous_def slice_three_before)

lemma recent_facts:
  assumes "list_all P ts"
  shows "list_all P (recent ts)" and "list_all P (previous ts)"
    and "length (recent ts) \<le> 3" and "length (previous ts) \<le> 3"
    and "ts \<noteq> [] \<Longrightarrow> recent ts \<noteq> []"
proof -
  have "set (recent ts) \<subseteq> set ts" unfolding recent_eq by (rule set_drop_subset)
  then show "list_all P (recent ts)" using assms by (auto simp: list_all_iff)
  have "set (previous ts) \<subseteq> set ts" unfolding previous_eq
    by (meson set_drop_subset set_take_subset subset_trans)
  then show "list_all P (previous ts)" using assms by (auto simp: list_all_iff)
  show "length (recent ts) \<le> 3" "length (previous ts) \<le> 3"
    by (simp_all add: recent_eq previous_eq)
  show "recent ts \<noteq> []" if "ts \<noteq> []"
    using that by (cases ts) (simp_all add: recent_eq)
qed

lemma averages_bounded:
  assumes "list_all (\<lambda>t. bounded_by (2 ^ 1000) (monthlySpend t)) ts" and "ts \<noteq> []"
  shows "\<exists>ra pa. recentAvg ts = Num ra \<and> previousAvg ts = Num pa \<and>
           \<bar>ra\<bar> \<le> 2 ^ 1003 \<and> \<bar>pa\<bar> \<le> 2 ^ 1003 \<and> (previous ts = [] \<longrightarrow> pa = ra)"
proof -
  note facts = recent_facts [OF assms(1)]
  from average_bounded [OF facts(1) facts(3) facts(5) [OF assms(2)]]
  obtain ra where ra: "recentAvg ts = Num ra" "\<bar>ra\<bar> \<le> 2 ^ 1003"
    by (auto simp: recentAvg_def)
  show ?thesis
  proof (cases "previous ts = []")
    case True
    then show ?thesis using ra by (simp add: previousAvg_def)
  next
    case False
    from average_bounded [OF facts(2) facts(4) False]
    obtain pa where "previousAvg ts = Num pa" "\<bar>pa\<bar> \<le> 2 ^ 1003"
      using False by (auto simp: previousAvg_def)
    then show ?thesis using ra False by simp
  qed
qed

lemma growth_finite_or_infinite:
  assumes "list_all (\<lambda>t. bounded_by (2 ^ 1000) (monthlySpend t)) ts"
  shows "trend_growthRate ts \<noteq> NaN"
    and "previous ts = [] \<Longrightarrow> trend_growthRate ts = Num 0"
proof -
  have "trend_growthRate ts \<noteq> NaN \<and> (previous ts = [] \<longrightarrow> trend_growthRate ts = Num 0)"
  proof (cases "ts = []")
    case True
    then show ?thesis
      by (simp add: trend_growthRate_def previousAvg_def recentAvg_def recent_eq previous_eq
          spend_sum_def f_div_def)
  next
    case False
    from averages_bounded [OF assms False]
    obtain ra pa where avg: "recentAvg ts = Num ra" "previousAvg ts = Num pa"
      "\<bar>ra\<bar> \<le> 2 ^ 1003" "\<bar>pa\<bar> \<le> 2 ^ 1003" "previous ts = [] \<longrightarrow> pa = ra"
      by blast
    show ?thesis
    proof (cases "0 < pa")
      case False
      then show ?thesis by (simp add: trend_growthRate_def avg(1,2))
    next
      case True
      have "\<bar>ra - pa\<bar> \<le> 2 ^ 1004" using avg(3,4) by (simp add: abs_le_iff)
      then have diff: "f_sub (Num ra) (Num pa) = Num (fl (ra - pa))"
        by (rule f_sub_Num) simp
      have growth: "trend_growthRate ts = f_mul (f_div (Num (fl (ra - pa))) (Num pa)) (Num 100)"
        using True by (simp add: trend_growthRate_def avg diff)
      have "f_div (Num (fl (ra - pa))) (Num pa) \<noteq> NaN"
        using True by (intro quotient_not_NaN) simp
      then have "trend_growthRate ts \<noteq> NaN" by (simp add: growth times_100_NaN_iff)
      moreover have "trend_growthRate ts = Num 0" if "previous ts = []"
      proof -
        have "pa = ra" using that avg(5) by simp
        then have "f_div (Num (fl (ra - pa))) (Num pa) = Num 0"
          using True by (simp add: fl_0 f_div_def rnd_0 del: rnd.simps)
        then show ?thesis by (simp add: growth f_mul_def rnd_0 del: rnd.simps)
      qed
      ultimately show ?thesis by simp
    qed
  qed
  then show "trend_growthRate ts \<noteq> NaN"
    and "previous ts = [] \<Longrightarrow> trend_growthRate ts = Num 0" by simp_all
qed

lemma reported_growthRate:
  "growthRate (summary (trend_of name points)) =
     f_div (Math_round (f_mul (trend_growthRate (sortedTrends points)) (Num 100))) (Num 100)"
  by (simp add: trend_of_def Let_def)

lemma hundred_bounded: "bounded_by (2 ^ 1000) (Num 100)"
proof -
  have "(100::rat) \<le> 2 ^ 7" by simp
  also have "(2::rat) ^ 7 \<le> 2 ^ 1000" by (intro power_increasing) simp_all
  finally show ?thesis by (simp add: bounded_by_def)
qed

lemma rnd_small: "\<bar>x\<bar> \<le> 2 ^ 64 \<Longrightarrow> rnd (Num x) = Num (fl x)"
  using rnd_Num [of x 64] by simp

lemma six_months_rounding:
  "fl 160 = 160" "fl 320 = 320" "fl 480 = 480" "fl 183 = 183" "fl 366 = 366" "fl 549 = 549"
  "fl 23 = 23"
  "fl (rat_of_int \<lfloor>fl (fl (fl (23 / 160) * 100) * 100) + 1 / 2\<rfloor> / 100) = fl (1437 / 100)"
  by code_simp+

lemma six_months_sorted:
  "sortedTrends six_months = rev six_months"
  "recent (sortedTrends six_months) = rev (take 3 six_months)"
  "previous (sortedTrends six_months) = rev (drop 3 six_months)"
  by (simp_all add: sortedTrends_def six_months_def recent_eq previous_eq)

lemma six_months_averages:
  "recentAvg (sortedTrends six_months) = Num 183"
  "previousAvg (sortedTrends six_months) = Num 160"
  by (simp_all add: recentAvg_def previousAvg_def six_months_sorted(2,3))
     (simp_all add: six_months_def spend_sum_def f_add_def f_div_def rnd_small
        six_months_rounding del: rnd.simps)

lemma six_months_bounded:
  "list_all (\<lambda>t. bounded_by (2 ^ 1000) (monthlySpend t)) six_months"
proof -
  have "(2::rat) ^ 8 \<le> 2 ^ 1000" by (intro power_increasing) simp_all
  then have "bounded_by (2 ^ 1000) (Num x)" if "\<bar>x\<bar> \<le> 2 ^ 8" for x
    using that by (simp add: bounded_by_def)
  then show ?thesis by (simp add: six_months_def)
qed

lemma single_month_bounded:
  "list_all (\<lambda>t. bounded_by (2 ^ 1000) (monthlySpend t)) single_month"
  using hundred_bounded by (simp add: single_month_def)

lemma six_months_reported:
  "f_div (Math_round (f_mul
     (f_mul (f_div (f_sub (Num 183) (Num 160)) (Num 160)) (Num 100)) (Num 100))) (Num 100) =
   Num (fl (1437 / 100))"
proof -
  have d: "f_sub (Num 183) (Num 160) = Num 23"
    by (simp add: f_sub_def rnd_small six_months_rounding del: rnd.simps)
  have q: "f_div (Num 23) (Num 160) = Num (fl (23 / 160))"
    by (rule f_div_Num [where k = 0]) simp_all
  have "\<bar>fl (23 / 160)\<bar> \<le> 2 ^ 0" by (rule fl_le_pow) simp
  then have b: "\<bar>fl (23 / 160) * 100\<bar> \<le> 2 ^ 7" by (simp add: abs_mult)
  then have m: "f_mul (Num (fl (23 / 160))) (Num 100) = Num (fl (fl (23 / 160) * 100))"
    by (rule f_mul_Num) simp
  have "\<bar>fl (fl (23 / 160) * 100)\<bar> \<le> 2 ^ 7" using b by (rule fl_le_pow)
  from two_decimals_Num [OF this] show ?thesis
    by (simp add: d q m six_months_rounding)
qed

text \<open>
  C7. The trends of a vendor are sorted by month, ascending; \<open>recent\<close> is the last
  three of them and \<open>previous\<close> the three before. The reported growth rate is
  \<open>((recentAvg - previousAvg) / previousAvg) * 100\<close> rounded to two decimals when
  \<open>previousAvg\<close> is positive and 0 otherwise, every operation being the one of the
  program on doubles. When every monthly spend is a number of magnitude at most
  \<open>2 ^ 1000\<close>, as the sums of \<^verbatim>\<open>DECIMAL(18,4)\<close> amounts are, the reported growth
  rate is never \<^verbatim>\<open>NaN\<close>, both averages of a vendor with at least one month are finite
  numbers, and with an empty \<open>previous\<close> the previous average is the recent one and
  the growth rate is 0. A single month with the spend 100 gives the growth rate 0.
\<close>

theorem growth_rate_formula:
  fixes points :: "trend_point list" and name :: string
  defines "ts \<equiv> sortedTrends points"
  defines "reported \<equiv> growthRate (summary (trend_of name points))"
  shows "sorted (map month ts) \<and>
         recent ts = drop (length ts - 3) ts \<and>
         previous ts = drop (length ts - 6) (take (length ts - 3) ts) \<and>
         previousAvg ts = (if previous ts = [] then recentAvg ts
                           else f_div (spend_sum (previous ts))
                                  (Num (rat_of_nat (length (previous ts))))) \<and>
         recentAvg ts = f_div (spend_sum (recent ts)) (Num (rat_of_nat (length (recent ts)))) \<and>
         reported =
           (if js_gt (previousAvg ts) (Num 0)
            then f_div (Math_round (f_mul
                   (f_mul (f_div (f_sub (recentAvg ts) (previousAvg ts)) (previousAvg ts))
                      (Num 100))
                   (Num 100))) (Num 100)
            else Num 0) \<and>
         (list_all (\<lambda>t. bounded_by (2 ^ 1000) (monthlySpend t)) points \<longrightarrow>
            reported \<noteq> NaN \<and>
            (previous ts = [] \<longrightarrow> reported = Num 0) \<and>
            (points \<noteq> [] \<longrightarrow>
               (\<exists>ra pa. recentAvg ts = Num ra \<and> previousAvg ts = Num pa \<and>
                  (previous ts = [] \<longrightarrow> pa = ra)))) \<and>
         growthRate (summary (trend_of name
           [\<lparr> month = m, invoiceCount = c, monthlySpend = Num 100, avgInvoiceValue = a \<rparr>])) = Num 0"
proof -
  have rep: "reported =
      f_div (Math_round (f_mul (trend_growthRate ts) (Num 100))) (Num 100)"
    by (simp add: reported_def ts_def reported_growthRate)
  have bounded: "reported \<noteq> NaN \<and>
            (previous ts = [] \<longrightarrow> reported = Num 0) \<and>
            (points \<noteq> [] \<longrightarrow>
               (\<exists>ra pa. recentAvg ts = Num ra \<and> previousAvg ts = Num pa \<and>
                  (previous ts = [] \<longrightarrow> pa = ra)))"
    if b: "list_all (\<lambda>t. bounded_by (2 ^ 1000) (monthlySpend t)) points"
  proof -
    have b': "list_all (\<lambda>t. bounded_by (2 ^ 1000) (monthlySpend t)) ts"
      using b by (simp add: ts_def sortedTrends_facts)
    have "reported \<noteq> NaN"
      using growth_finite_or_infinite(1) [OF b'] by (simp only: rep two_decimals_NaN_iff) simp
    moreover have "reported = Num 0" if "previous ts = []"
      using growth_finite_or_infinite(2) [OF b' that] by (simp only: rep two_decimals_0)
    moreover have "\<exists>ra pa. recentAvg ts = Num ra \<and> previousAvg ts = Num pa \<and>
                  (previous ts = [] \<longrightarrow> pa = ra)" if "points \<noteq> []"
    proof -
      have "ts \<noteq> []" using that by (simp add: ts_def sortedTrends_Nil)
      from averages_bounded [OF b' this] show ?thesis by blast
    qed
    ultimately show ?thesis by blast
  qed
  let ?one = "[\<lparr> month = m, invoiceCount = c, monthlySpend = Num 100, avgInvoiceValue = a \<rparr>]"
  have one: "growthRate (summary (trend_of name ?one)) = Num 0"
  proof -
    have s: "sortedTrends ?one = ?one" by (simp add: sortedTrends_def)
    have "list_all (\<lambda>t. bounded_by (2 ^ 1000) (monthlySpend t)) ?one"
      using hundred_bounded by simp
    moreover have "previous ?one = []" by (simp add: previous_eq)
    ultimately have "trend_growthRate ?one = Num 0" by (rule growth_finite_or_infinite(2))
    then show ?thesis by (simp only: reported_growthRate s two_decimals_0)
  qed
  have "reported =
           (if js_gt (previousAvg ts) (Num 0)
            then f_div (Math_round (f_mul
                   (f_mul (f_div (f_sub (recentAvg ts) (previousAvg ts)) (previousAvg ts))
                      (Num 100))
                   (Num 100))) (Num 100)
            else Num 0)"
    by (simp add: rep trend_growthRate_def two_decimals_0)
  moreover have "sorted (map month ts)" by (simp add: ts_def sortedTrends_facts)
  moreover have "previousAvg ts = (if previous ts = [] then recentAvg ts
                           else f_div (spend_sum (previous ts))
                                  (Num (rat_of_nat (length (previous ts)))))"
    by (simp add: previousAvg_def)
  ultimately show ?thesis
    using bounded one by (simp add: recent_eq previous_eq recentAvg_def)
qed

theorem growth_rate_formula_witness:
  "list_all (\<lambda>t. bounded_by (2 ^ 1000) (monthlySpend t)) six_months \<and>
   six_months \<noteq> [] \<and>
   recentAvg (sortedTrends six_months) = Num 183 \<and>
   previousAvg (sortedTrends six_months) = Num 160 \<and>
   growthRate (summary (trend_of ''Acme Supplies'' six_months)) = Num (fl (1437 / 100)) \<and>
   list_all (\<lambda>t. bounded_by (2 ^ 1000) (monthlySpend t)) single_month \<and>
   previous (sortedTrends single_month) = [] \<and>
   growthRate (summary (trend_of ''Acme Supplies'' single_month)) = Num 0"
proof -
  have "growthRate (summary (trend_of ''Acme Supplies'' six_months)) = Num (fl (1437 / 100))"
    using growth_rate_formula [of six_months "''Acme Supplies''"]
    by (simp add: six_months_averages six_months_reported)
  moreover have p: "previous (sortedTrends single_month) = []"
    by (simp add: previous_eq sortedTrends_facts single_month_def)
  moreover have "growthRate (summary (trend_of ''Acme Supplies'' single_month)) = Num 0"
    using growth_rate_formula [of single_month "''Acme Supplies''"] single_month_bounded p
    by blast
  moreover have "six_months \<noteq> []" by (simp add: six_months_def)
  ultimately show ?thesis
    using six_months_bounded single_month_bounded six_months_averages by simp
qed

section \<open>Limits\<close>














end
